theory Spec2Isabelle
  imports Complex_Main
begin

section \<open>The sampler orchestrator (InferBlackJax.py)\<close>

subsection \<open>Errors, backends, models\<close>

text \<open>
  A raised exception is a value. \<open>AttributeError a\<close> is Python's error for reading the
  attribute \<open>a\<close> of an object that does not have it; \<open>LibraryError f\<close> is an exception
  raised inside the library call \<open>f\<close> (jax, numpyro, blackjax, or a callable the model
  supplies). \<open>ConfigurationError\<close> is the error kind the specification names; no statement
  of the module raises it.
\<close>

datatype error = AttributeError string | LibraryError string | ConfigurationError

text \<open>
  The enumeration \<^verbatim>\<open>Backend\<close> is imported from \<^verbatim>\<open>evofr.infer.backends\<close>. The module
  compares against its members \<open>NUMPYRO\<close> and \<open>PROVIDED\<close>; \<open>OtherBackend\<close> stands for every
  other value the argument can hold.
\<close>

datatype Backend = NUMPYRO | PROVIDED | OtherBackend string

text \<open>A \<^verbatim>\<open>Dict\<close> of samples: quantity name to (stacked) value.\<close>

type_synonym 'v samples = "string \<rightharpoonup> 'v"

text \<open>A log-density function; \<^verbatim>\<open>lambda _: None\<close> is \<open>\<lambda>_. None\<close>.\<close>

type_synonym 'pos logdensity = "'pos \<Rightarrow> real option"

text \<open>
  A model object, as far as the module inspects it. The module probes attributes with
  \<^verbatim>\<open>hasattr\<close>, so every field is optional: \<open>None\<close> is a missing attribute. The attribute
  \<open>backend\<close> is an \<^verbatim>\<open>Optional[Backend]\<close> and may itself hold Python's \<open>None\<close>.
\<close>

record ('k, 'd, 'fn, 'pos, 'v) ModelSpec =
  backend :: "Backend option option"
  model_fn :: "'fn option"
  logdensity_fn_gen :: "('d \<Rightarrow> error + 'pos logdensity) option"
  logdensity_fn :: "'pos logdensity option"
  initial_position :: "'pos option"
  initial_position_fn :: "('k \<Rightarrow> error + 'pos) option"
  pred_fn :: "('k \<Rightarrow> 'v samples \<Rightarrow> 'd \<Rightarrow> error + 'v samples) option"

subsection \<open>The libraries the module calls\<close>

text \<open>
  A sampler kernel: \<open>init\<close> builds the sampler state at a position (the position may be
  Python's \<open>None\<close>), \<open>step\<close> is one transition \<^verbatim>\<open>kernel(rng_key, state)\<close>, traced inside
  \<^verbatim>\<open>jax.lax.scan\<close>.
\<close>

record ('k, 'pos, 'st, 'info) kernel =
  init :: "'pos option \<Rightarrow> error + 'st"
  step :: "'k \<Rightarrow> 'st \<Rightarrow> 'st \<times> 'info"

type_synonym ('k, 'pos, 'st, 'info, 'kw) kernel_fn =
  "'pos logdensity \<Rightarrow> 'kw \<Rightarrow> error + ('k, 'pos, 'st, 'info) kernel"

text \<open>
  The library functions are parameters of the embedding; each is a function of its
  arguments (jax's random numbers are functional: all randomness is in the key).
  \<^item> \<open>PRNGKey seed\<close>: \<^verbatim>\<open>random.PRNGKey(seed)\<close>.
  \<^item> \<open>split key\<close>: \<^verbatim>\<open>random.split(key)\<close>, the two keys in the order they are unpacked.
  \<^item> \<open>split_num key n\<close>: \<^verbatim>\<open>random.split(key, n)\<close>.
  \<^item> \<open>initialize_model subkey fn data\<close>: numpyro's \<^verbatim>\<open>initialize_model\<close>, giving
    \<^verbatim>\<open>init_parms.z\<close> and \<^verbatim>\<open>potential_fn_gen\<close>.
  \<^item> \<open>Predictive fn samples subkey data\<close>:
    \<^verbatim>\<open>Predictive(fn, samples)(subkey, pred=True, **data)\<close>.
  \<^item> \<open>window_adaptation kernel_fn logdensity_fn kwargs num_steps\<close>:
    \<^verbatim>\<open>blackjax.window_adaptation(...)\<close>; the result is its \<^verbatim>\<open>run\<close>, giving the last
    state and the adapted kernel.
  \<^item> \<open>position states\<close>: the field \<^verbatim>\<open>.position\<close> of the stacked states.
\<close>

record ('k, 'd, 'fn, 'pos, 'v, 'st, 'info, 'kw) library =
  PRNGKey :: "int \<Rightarrow> 'k"
  split :: "'k \<Rightarrow> 'k \<times> 'k"
  split_num :: "'k \<Rightarrow> int \<Rightarrow> error + 'k list"
  initialize_model :: "'k \<Rightarrow> 'fn \<Rightarrow> 'd \<Rightarrow> error + ('pos \<times> ('d \<Rightarrow> 'pos \<Rightarrow> real))"
  Predictive :: "'fn \<Rightarrow> 'v samples \<Rightarrow> 'k \<Rightarrow> 'd \<Rightarrow> error + 'v samples"
  window_adaptation ::
    "('k, 'pos, 'st, 'info, 'kw) kernel_fn \<Rightarrow> 'pos logdensity \<Rightarrow> 'kw \<Rightarrow> int \<Rightarrow>
       error + ('k \<Rightarrow> 'pos option \<Rightarrow> error + ('st \<times> ('k, 'pos, 'st, 'info) kernel))"
  position :: "'st list \<Rightarrow> 'v samples"

subsection \<open>BlackJaxNumpyro and BlackJaxProvided\<close>

definition BlackJaxNumpyro_init ::
  "('k, 'd, 'fn, 'pos, 'v, 'st, 'info, 'kw) library \<Rightarrow> 'k \<Rightarrow> 'fn \<Rightarrow> 'd \<Rightarrow>
     error + ('pos option \<times> 'pos logdensity)" where
  "BlackJaxNumpyro_init L key model data =
     (let (key', subkey) = split L key
      in case initialize_model L subkey model data of
           Inl e \<Rightarrow> Inl e
         | Inr (z, potential_fn_gen) \<Rightarrow>
             Inr (Some z, \<lambda>position. Some (- potential_fn_gen data position)))"

definition BlackJaxNumpyro_predict ::
  "('k, 'd, 'fn, 'pos, 'v, 'st, 'info, 'kw) library \<Rightarrow> 'k \<Rightarrow> 'fn \<Rightarrow> 'd \<Rightarrow> 'v samples \<Rightarrow>
     error + 'v samples" where
  "BlackJaxNumpyro_predict L key model data samples =
     (let (key', subkey) = split L key
      in case Predictive L model samples subkey data of
           Inl e \<Rightarrow> Inl e
         | Inr samples_pred \<Rightarrow> Inr (samples ++ samples_pred))"

definition BlackJaxProvided_init ::
  "'k \<Rightarrow> ('k, 'd, 'fn, 'pos, 'v) ModelSpec \<Rightarrow> 'd \<Rightarrow> error + ('pos option \<times> 'pos logdensity)" where
  "BlackJaxProvided_init key model data =
     (case (case logdensity_fn_gen model of
              Some gen \<Rightarrow> gen data
            | None \<Rightarrow> (case logdensity_fn model of
                         Some f \<Rightarrow> Inr f
                       | None \<Rightarrow> Inr (\<lambda>_. None))) of
        Inl e \<Rightarrow> Inl e
      | Inr logdensity \<Rightarrow>
          (case initial_position model of
             Some p \<Rightarrow> Inr (Some p, logdensity)
           | None \<Rightarrow>
               (case initial_position_fn model of
                  Some f \<Rightarrow> (case f key of Inl e \<Rightarrow> Inl e | Inr p \<Rightarrow> Inr (Some p, logdensity))
                | None \<Rightarrow> Inr (None, logdensity))))"

definition BlackJaxProvided_predict ::
  "'k \<Rightarrow> ('k, 'd, 'fn, 'pos, 'v) ModelSpec \<Rightarrow> 'd \<Rightarrow> 'v samples \<Rightarrow> error + 'v samples" where
  "BlackJaxProvided_predict key model data samples =
     (case pred_fn model of
        None \<Rightarrow> Inr samples
      | Some f \<Rightarrow>
          (case f key samples data of
             Inl e \<Rightarrow> Inl e
           | Inr samples_pred \<Rightarrow> Inr (samples ++ samples_pred)))"

subsection \<open>BlackJaxHandler\<close>

text \<open>
  The handler object. \<open>state\<close> is the attribute the constructor sets to \<open>None\<close>;
  \<open>states\<close> and \<open>infos\<close> are the attributes \<^verbatim>\<open>fit\<close> assigns: \<open>None\<close> is a missing
  attribute, \<open>Some None\<close> the attribute holding Python's \<open>None\<close>. The stacked states
  and diagnostics that \<^verbatim>\<open>jax.lax.scan\<close> returns are lists in draw order.
\<close>

record ('k, 'pos, 'st, 'info, 'kw) BlackJaxHandler =
  kernel_fn :: "('k, 'pos, 'st, 'info, 'kw) kernel_fn"
  kernel_kwargs :: "'kw"
  seed :: int
  rng_key :: "'k"
  state :: "'st option"
  states :: "'st list option option"
  infos :: "'info list option"

definition BlackJaxHandler_init ::
  "('k, 'd, 'fn, 'pos, 'v, 'st, 'info, 'kw) library \<Rightarrow> ('k, 'pos, 'st, 'info, 'kw) kernel_fn \<Rightarrow>
     'kw \<Rightarrow> ('k, 'pos, 'st, 'info, 'kw) BlackJaxHandler" where
  "BlackJaxHandler_init L kern kwargs =
     \<lparr>kernel_fn = kern, kernel_kwargs = kwargs, seed = 100, rng_key = PRNGKey L 100,
      state = None, states = None, infos = None\<rparr>"

text \<open>
  \<^verbatim>\<open>jax.lax.scan(f, init, xs)\<close>: the loop of its documentation, carrying one state and
  collecting one output per element of \<open>xs\<close>, in order.
\<close>

fun scan :: "('c \<Rightarrow> 'x \<Rightarrow> 'c \<times> 'y) \<Rightarrow> 'c \<Rightarrow> 'x list \<Rightarrow> 'c \<times> 'y list" where
  "scan f c [] = (c, [])"
| "scan f c (x # xs) =
     (let (c', y) = f c x; (c'', ys) = scan f c' xs in (c'', y # ys))"

definition one_step ::
  "('k, 'pos, 'st, 'info) kernel \<Rightarrow> 'st \<Rightarrow> 'k \<Rightarrow> 'st \<times> ('st \<times> 'info)" where
  "one_step kern st rng = (let (st', info) = step kern rng st in (st', (st', info)))"

definition inference_loop ::
  "('k, 'd, 'fn, 'pos, 'v, 'st, 'info, 'kw) library \<Rightarrow> 'k \<Rightarrow> ('k, 'pos, 'st, 'info) kernel \<Rightarrow>
     'st \<Rightarrow> int \<Rightarrow> error + ('st list \<times> 'info list)" where
  "inference_loop L rng kern initial_state num_samples =
     (case split_num L rng num_samples of
        Inl e \<Rightarrow> Inl e
      | Inr keys \<Rightarrow>
          (let (last_state, ys) = scan (one_step kern) initial_state keys
           in Inr (map fst ys, map snd ys)))"

text \<open>
  The backend in force: the model's attribute, when it has one and no backend argument
  was passed (the first statement of \<^verbatim>\<open>_initialize\<close> and of \<^verbatim>\<open>_predict\<close>).
\<close>

definition backend_in_force ::
  "('k, 'd, 'fn, 'pos, 'v) ModelSpec \<Rightarrow> Backend option \<Rightarrow> Backend option" where
  "backend_in_force model b =
     (case backend model of
        Some mb \<Rightarrow> (if b = None then mb else b)
      | None \<Rightarrow> b)"

text \<open>\<^verbatim>\<open>model.model_fn\<close>, which raises when the model has no such attribute.\<close>

definition get_model_fn :: "('k, 'd, 'fn, 'pos, 'v) ModelSpec \<Rightarrow> error + 'fn" where
  "get_model_fn model =
     (case model_fn model of None \<Rightarrow> Inl (AttributeError ''model_fn'') | Some f \<Rightarrow> Inr f)"

text \<open>
  The static methods \<^verbatim>\<open>_initialize\<close> and \<^verbatim>\<open>_predict\<close> are \<open>initialize\<close> and \<open>predict'\<close>
  (a name cannot begin with an underscore); \<open>b\<close> is their argument \<open>backend\<close>.
\<close>

definition initialize ::
  "('k, 'd, 'fn, 'pos, 'v, 'st, 'info, 'kw) library \<Rightarrow> 'k \<Rightarrow> ('k, 'd, 'fn, 'pos, 'v) ModelSpec \<Rightarrow>
     'd \<Rightarrow> Backend option \<Rightarrow> error + ('pos option \<times> 'pos logdensity)" where
  "initialize L key model data b =
     (case backend_in_force model b of
        None \<Rightarrow>
          (case get_model_fn model of
             Inl e \<Rightarrow> Inl e | Inr f \<Rightarrow> BlackJaxNumpyro_init L key f data)
      | Some NUMPYRO \<Rightarrow>
          (case get_model_fn model of
             Inl e \<Rightarrow> Inl e | Inr f \<Rightarrow> BlackJaxNumpyro_init L key f data)
      | Some PROVIDED \<Rightarrow> BlackJaxProvided_init key model data
      | Some (OtherBackend x) \<Rightarrow> Inr (None, \<lambda>_. None))"

definition predict' ::
  "('k, 'd, 'fn, 'pos, 'v, 'st, 'info, 'kw) library \<Rightarrow> 'k \<Rightarrow> ('k, 'd, 'fn, 'pos, 'v) ModelSpec \<Rightarrow>
     'd \<Rightarrow> 'v samples \<Rightarrow> Backend option \<Rightarrow> error + 'v samples" where
  "predict' L key model data samples b =
     (case backend_in_force model b of
        Some NUMPYRO \<Rightarrow>
          (case get_model_fn model of
             Inl e \<Rightarrow> Inl e | Inr f \<Rightarrow> BlackJaxNumpyro_predict L key f data samples)
      | Some PROVIDED \<Rightarrow> BlackJaxProvided_predict key model data samples
      | None \<Rightarrow>
          (case get_model_fn model of
             Inl e \<Rightarrow> Inl e | Inr f \<Rightarrow> BlackJaxNumpyro_predict L key f data samples)
      | Some (OtherBackend x) \<Rightarrow> Inr Map.empty)"

text \<open>
  The methods of the handler take the handler and return it as the call leaves it,
  beside the result: an exception does not undo the assignments made before it.
\<close>

definition run_warmup ::
  "('k, 'd, 'fn, 'pos, 'v, 'st, 'info, 'kw) library \<Rightarrow> ('k, 'pos, 'st, 'info, 'kw) BlackJaxHandler \<Rightarrow>
     'pos option \<Rightarrow> 'pos logdensity \<Rightarrow> int \<Rightarrow>
     (error + ('st \<times> ('k, 'pos, 'st, 'info) kernel)) \<times> ('k, 'pos, 'st, 'info, 'kw) BlackJaxHandler" where
  "run_warmup L self initial_pos logdensity num_warmup =
     (let num_warmup' = (if num_warmup < 1 then 1 else num_warmup)
      in case window_adaptation L (kernel_fn self) logdensity (kernel_kwargs self) num_warmup' of
           Inl e \<Rightarrow> (Inl e, self)
         | Inr run \<Rightarrow>
             (let (rng', key) = split L (rng_key self);
                  self' = self\<lparr>rng_key := rng'\<rparr>
              in (run key initial_pos, self')))"

text \<open>
  The statement of \<^verbatim>\<open>fit\<close> under its comment \<^verbatim>\<open># Run adapt window\<close>: warm-up when
  \<open>num_warmup > 0\<close>, otherwise the kernel built from the handler's own arguments and its
  \<open>init\<close> at the initial position.
\<close>

definition starting_state ::
  "('k, 'd, 'fn, 'pos, 'v, 'st, 'info, 'kw) library \<Rightarrow> ('k, 'pos, 'st, 'info, 'kw) BlackJaxHandler \<Rightarrow>
     'pos option \<Rightarrow> 'pos logdensity \<Rightarrow> int \<Rightarrow>
     (error + ('st \<times> ('k, 'pos, 'st, 'info) kernel)) \<times> ('k, 'pos, 'st, 'info, 'kw) BlackJaxHandler" where
  "starting_state L self initial_pos logdensity num_warmup =
     (if num_warmup > 0
      then run_warmup L self initial_pos logdensity num_warmup
      else (case kernel_fn self logdensity (kernel_kwargs self) of
              Inl e \<Rightarrow> (Inl e, self)
            | Inr kern \<Rightarrow>
                (case init kern initial_pos of
                   Inl e \<Rightarrow> (Inl e, self)
                 | Inr st \<Rightarrow> (Inr (st, kern), self))))"

definition fit ::
  "('k, 'd, 'fn, 'pos, 'v, 'st, 'info, 'kw) library \<Rightarrow> ('k, 'pos, 'st, 'info, 'kw) BlackJaxHandler \<Rightarrow>
     ('k, 'd, 'fn, 'pos, 'v) ModelSpec \<Rightarrow> 'd \<Rightarrow> int \<Rightarrow> int \<Rightarrow>
     error option \<times> ('k, 'pos, 'st, 'info, 'kw) BlackJaxHandler" where
  "fit L self model data num_warmup num_samples =
     (let (rng1, key1) = split L (rng_key self);
          self1 = self\<lparr>rng_key := rng1\<rparr>
      in case initialize L key1 model data None of
           Inl e \<Rightarrow> (Some e, self1)
         | Inr (initial_pos, logdensity) \<Rightarrow>
             (case starting_state L self1 initial_pos logdensity num_warmup of
                (Inl e, self2) \<Rightarrow> (Some e, self2)
              | (Inr (st, kern), self2) \<Rightarrow>
                  (let (rng3, key3) = split L (rng_key self2);
                       self3 = self2\<lparr>rng_key := rng3\<rparr>
                   in case inference_loop L key3 kern st num_samples of
                        Inl e \<Rightarrow> (Some e, self3)
                      | Inr (sts, infs) \<Rightarrow>
                          (None, self3\<lparr>states := Some (Some sts), infos := Some infs\<rparr>))))"

text \<open>
  The property \<^verbatim>\<open>samples\<close> reads the attribute \<open>states\<close>, which raises when the handler
  has no such attribute.
\<close>

definition samples ::
  "('k, 'd, 'fn, 'pos, 'v, 'st, 'info, 'kw) library \<Rightarrow> ('k, 'pos, 'st, 'info, 'kw) BlackJaxHandler \<Rightarrow>
     error + 'v samples" where
  "samples L self =
     (case states self of
        None \<Rightarrow> Inl (AttributeError ''states'')
      | Some None \<Rightarrow> Inr Map.empty
      | Some (Some sts) \<Rightarrow> Inr (position L sts))"

definition predict ::
  "('k, 'd, 'fn, 'pos, 'v, 'st, 'info, 'kw) library \<Rightarrow> ('k, 'pos, 'st, 'info, 'kw) BlackJaxHandler \<Rightarrow>
     ('k, 'd, 'fn, 'pos, 'v) ModelSpec \<Rightarrow> 'd \<Rightarrow>
     (error + 'v samples) \<times> ('k, 'pos, 'st, 'info, 'kw) BlackJaxHandler" where
  "predict L self model data =
     (case samples L self of
        Inl e \<Rightarrow> (Inl e, self)
      | Inr s \<Rightarrow> (predict' L (rng_key self) model data s None, self))"

section \<open>Reference variant of the regression models\<close>

text \<open>
  Arrays of floating-point numbers are embedded as lists (vectors) and lists of rows
  (matrices) of exact reals; a matrix of shape \<open>(m, n)\<close> is a list of \<open>m\<close> rows of
  length \<open>n\<close>.
\<close>

text \<open>
  \<^verbatim>\<open>jnp.column_stack((M, c))\<close> for a two-dimensional \<open>M\<close> and a one-dimensional \<open>c\<close>:
  \<open>c\<close> becomes the last column. The row counts must agree, otherwise the call raises.
\<close>

definition column_stack :: "'a list list \<Rightarrow> 'a list \<Rightarrow> 'a list list option" where
  "column_stack M c =
     (if length M = length c then Some (map2 (\<lambda>row x. row @ [x]) M c) else None)"

text \<open>
  \<^verbatim>\<open>MLR_numpyro\<close>: \<open>beta = column_stack((raw_beta, zeros(N_features)))\<close>, where
  \<open>raw_beta\<close> is sampled with shape \<open>(N_features, N_variants - 1)\<close>.
\<close>

definition MLR_beta :: "nat \<Rightarrow> real list list \<Rightarrow> real list list option" where
  "MLR_beta N_features raw_beta = column_stack raw_beta (replicate N_features 0)"

text \<open>
  \<^verbatim>\<open>_variant_model\<close>: \<open>beta = beta_0 + concatenate([[0.0], beta_rw])\<close>.
\<close>

definition spline_beta :: "real \<Rightarrow> real list \<Rightarrow> real list" where
  "spline_beta beta_0 beta_rw = map (\<lambda>x. beta_0 + x) (0 # beta_rw)"

text \<open>\<open>M.T\<close> for a matrix \<open>M\<close> with \<open>k\<close> columns.\<close>

definition transpose_T :: "nat \<Rightarrow> 'a list list \<Rightarrow> 'a list list" where
  "transpose_T k M = map (\<lambda>i. map (\<lambda>row. row ! i) M) [0..<k]"

text \<open>
  \<^verbatim>\<open>_variant_model\<close>: \<open>delta = delta_rw.T\<close> and
  \<open>beta_mat = beta[:, None] + hstack((delta, zeros((k, 1))))\<close>, where \<open>delta_rw\<close> has
  shape \<open>(N_variant - 1, k)\<close> and \<open>beta\<close> has length \<open>k\<close>.
\<close>

definition spline_beta_mat :: "nat \<Rightarrow> real list \<Rightarrow> real list list \<Rightarrow> real list list" where
  "spline_beta_mat k beta delta_rw =
     (let delta = transpose_T k delta_rw
      in map2 (\<lambda>b row. map (\<lambda>x. b + x) row) beta (map2 (@) delta (replicate k [0])))"


section \<open>The renewal and spline models (model_factories.py)\<close>

subsection \<open>Array operations\<close>

text \<open>
  Where the source itself brings in a value that is not a finite number (the fill of an
  out-of-range \<^verbatim>\<open>take\<close>, the \<open>nan\<close> that \<^verbatim>\<open>diff\<close> prepends, the logarithm of a
  number that is not positive, the mean of an empty array), entries are \<open>real option\<close>,
  \<open>None\<close> being such a value; it propagates through subtraction, multiplication and
  logarithm.
\<close>

definition nan_sub :: "real option \<Rightarrow> real option \<Rightarrow> real option" where
  "nan_sub a b = (case (a, b) of (Some x, Some y) \<Rightarrow> Some (x - y) | _ \<Rightarrow> None)"

definition nan_mul :: "real option \<Rightarrow> real option \<Rightarrow> real option" where
  "nan_mul a b = (case (a, b) of (Some x, Some y) \<Rightarrow> Some (x * y) | _ \<Rightarrow> None)"

definition nan_log :: "real option \<Rightarrow> real option" where
  "nan_log a = (case a of Some x \<Rightarrow> (if 0 < x then Some (ln x) else None) | None \<Rightarrow> None)"

definition mean :: "real list \<Rightarrow> real option" where
  "mean xs = (if xs = [] then None else Some (sum_list xs / real (length xs)))"

text \<open>\<^verbatim>\<open>jnp.zeros((m, n))\<close> and \<^verbatim>\<open>np.tile(xs, n)\<close> for a vector \<open>xs\<close>.\<close>

definition zeros :: "nat \<Rightarrow> nat \<Rightarrow> real list list" where
  "zeros m n = replicate m (replicate n 0)"

definition tile :: "'a list \<Rightarrow> nat \<Rightarrow> 'a list" where
  "tile xs n = concat (replicate n xs)"

text \<open>\<^verbatim>\<open>jnp.arange(seed_L, seed_L + T, 1)\<close>: the rows of the observed days.\<close>

definition obs_range :: "nat \<Rightarrow> nat \<Rightarrow> nat list" where
  "obs_range seed_L T = [seed_L..<seed_L + T]"

text \<open>
  \<^verbatim>\<open>jnp.take(A, idx, axis=0)\<close>: the rows of \<open>A\<close> at \<open>idx\<close>; an index out of range gives
  the fill row (jax's default mode fills with \<open>nan\<close>).
\<close>

definition take_rows :: "'a \<Rightarrow> 'a list \<Rightarrow> nat list \<Rightarrow> 'a list" where
  "take_rows fill A idx = map (\<lambda>i. if i < length A then A ! i else fill) idx"

text \<open>
  \<^verbatim>\<open>A.at[(rows, cols)].set(vals)\<close>: entry \<open>(rows[j], cols[j])\<close> becomes \<open>vals[j]\<close>; an update
  whose index is out of range is dropped.
\<close>

definition at_upd :: "(nat \<times> nat) \<times> 'a \<Rightarrow> 'a list list \<Rightarrow> 'a list list" where
  "at_upd = (\<lambda>((r, c), x) B.
     if r < length B \<and> c < length (B ! r) then B[r := (B ! r)[c := x]] else B)"

definition at_set :: "'a list list \<Rightarrow> nat list \<times> nat list \<Rightarrow> 'a list \<Rightarrow> 'a list list" where
  "at_set A idx vals = fold at_upd (zip (zip (fst idx) (snd idx)) vals) A"

text \<open>\<^verbatim>\<open>jnp.clip(x, a_min, a_max)\<close>.\<close>

definition clip :: "real \<Rightarrow> real \<Rightarrow> real \<Rightarrow> real" where
  "clip a_min a_max x = min (max x a_min) a_max"

text \<open>
  \<^verbatim>\<open>jnp.diff(A, prepend=jnp.nan, axis=0)\<close>: row \<open>i\<close> minus row \<open>i - 1\<close>, the row before
  the first being a row of \<open>nan\<close>.
\<close>

definition diff_prepend_nan :: "real option list list \<Rightarrow> real option list list" where
  "diff_prepend_nan A =
     (case A of
        [] \<Rightarrow> []
      | a # _ \<Rightarrow> map2 (map2 nan_sub) A (map (\<lambda>_. None) a # A))"

subsection \<open>First detection and seeding (\<^verbatim>\<open>_renewal_model\<close>)\<close>

text \<open>
  A sequence count is \<open>None\<close> when it is invalid (\<open>nan\<close> or infinite, masked by
  \<^verbatim>\<open>np.ma.masked_invalid\<close>). A masked entry compares as \<open>False\<close> in the boolean array that
  \<^verbatim>\<open>argmax\<close> searches.
\<close>

definition nonzero_valid :: "'a::zero option \<Rightarrow> bool" where
  "nonzero_valid x = (case x of None \<Rightarrow> False | Some v \<Rightarrow> v \<noteq> 0)"

text \<open>\<^verbatim>\<open>argmax\<close> of a boolean vector: the first \<open>True\<close>, and \<open>0\<close> when there is none.\<close>

definition argmax_bool :: "bool list \<Rightarrow> nat" where
  "argmax_bool bs = (if True \<in> set bs then length (takeWhile Not bs) else 0)"

text \<open>
  \<^verbatim>\<open>first_obs = (np.ma.masked_invalid(np.array(seq_counts)) != 0).argmax(axis=0)\<close>, one
  index per variant (column). \<^verbatim>\<open>argmax\<close> along an empty axis raises.
\<close>

definition first_obs :: "'a::zero option list list \<Rightarrow> error + nat list" where
  "first_obs seq_counts =
     (case seq_counts of
        [] \<Rightarrow> Inl (LibraryError ''argmax'')
      | row # _ \<Rightarrow>
          Inr (map (\<lambda>v. argmax_bool (map (\<lambda>r. nonzero_valid (r ! v)) seq_counts))
                 [0..<length row]))"

text \<open>
  \<^verbatim>\<open>intro_dates = np.concatenate([first_obs + d for d in np.arange(0, seed_L)])\<close>;
  \<^verbatim>\<open>np.concatenate\<close> of no arrays raises.
\<close>

definition intro_dates :: "nat list \<Rightarrow> nat \<Rightarrow> error + nat list" where
  "intro_dates fo seed_L =
     (if seed_L = 0 then Inl (LibraryError ''concatenate'')
      else Inr (concat (map (\<lambda>d. map (\<lambda>f. f + d) fo) [0..<seed_L])))"

text \<open>
  The matrix \<open>intros\<close> of \<^verbatim>\<open>_renewal_model\<close>, of shape \<open>(T + seed_L + forecast_L, N_variant)\<close>,
  from the sequence counts and the sample \<open>logI0_sample\<close> of the site \<open>logI0\<close> (one per
  variant): \<open>logI0 = logI0_sample * 3.0\<close>, \<open>I0 = exp(logI0)\<close>, and
  \<^verbatim>\<open>intros.at[intro_idx].set(jnp.tile(I0, seed_L))\<close>.
\<close>

definition renewal_intros ::
  "'a::zero option list list \<Rightarrow> nat \<Rightarrow> nat \<Rightarrow> real list \<Rightarrow> error + real list list" where
  "renewal_intros seq_counts seed_L forecast_L logI0_sample =
     (let T = length seq_counts;
          N_variant = (case seq_counts of [] \<Rightarrow> 0 | row # _ \<Rightarrow> length row)
      in case first_obs seq_counts of
           Inl e \<Rightarrow> Inl e
         | Inr fo \<Rightarrow>
             (case intro_dates fo seed_L of
                Inl e \<Rightarrow> Inl e
              | Inr dates \<Rightarrow>
                  (let intro_idx = (dates, tile [0..<N_variant] seed_L);
                       intros = zeros (T + seed_L + forecast_L) N_variant;
                       logI0 = map (\<lambda>x. x * 3) logI0_sample;
                       I0 = map exp logI0
                   in Inr (at_set intros intro_idx (tile I0 seed_L)))))"

subsection \<open>Reporting fractions\<close>

text \<open>
  \<^verbatim>\<open>_renewal_model\<close>: \<open>rho_logits = sample * 3.0\<close>,
  \<open>rho = exp(append(rho_logits, 0.0))\<close>, \<open>rho = rho / rho.sum()\<close>.
\<close>

definition renewal_rho :: "real list \<Rightarrow> real list" where
  "renewal_rho rho_logits_sample =
     (let rho_logits = map (\<lambda>x. x * 3) rho_logits_sample;
          rho = map exp (rho_logits @ [0])
      in map (\<lambda>x. x / sum_list rho) rho)"

text \<open>
  The function \<^verbatim>\<open>reporting_to_vec\<close> is imported from \<^verbatim>\<open>model_functions\<close>; it is the
  parameter \<open>reporting_to_vec\<close> below. \<open>renewal_rho_vec\<close> is \<open>rho_vec\<close> of
  \<^verbatim>\<open>_renewal_model\<close>; \<open>spline_rho_vec\<close> is \<open>rho_vec\<close> of \<^verbatim>\<open>_variant_model\<close>, where
  \<open>rho\<close> is the sample of the site \<open>rho\<close> (a plate of 7 draws of Beta(5, 5)).
\<close>

definition renewal_rho_vec :: "(real list \<Rightarrow> nat \<Rightarrow> real list) \<Rightarrow> real list \<Rightarrow> nat \<Rightarrow> real list" where
  "renewal_rho_vec reporting_to_vec rho_logits_sample T =
     reporting_to_vec (renewal_rho rho_logits_sample) T"

definition spline_rho_vec :: "(real list \<Rightarrow> nat \<Rightarrow> real list) \<Rightarrow> real list \<Rightarrow> nat \<Rightarrow> real list" where
  "spline_rho_vec reporting_to_vec rho T = reporting_to_vec rho T"

subsection \<open>Prevalence, growth rate, frequency\<close>

text \<open>
  \<^verbatim>\<open>I_prev = jnp.clip(v_fs_I(...), a_min=1e-12, a_max=1e32)\<close>; the simulator's output is
  the argument \<open>sim\<close>.
\<close>

definition I_prev_of :: "real list list \<Rightarrow> real list list" where
  "I_prev_of sim = map (map (clip (1 / 10 ^ 12) (10 ^ 32))) sim"

text \<open>The rows of the observed days: \<^verbatim>\<open>jnp.take(I_prev, obs_range, axis=0)\<close>.\<close>

definition take_obs :: "nat \<Rightarrow> real list list \<Rightarrow> nat \<Rightarrow> nat \<Rightarrow> real option list list" where
  "take_obs N_variant I_prev seed_L T =
     take_rows (replicate N_variant None) (map (map Some) I_prev) (obs_range seed_L T)"

text \<open>The site \<open>I_smooth\<close>: \<^verbatim>\<open>jnp.mean(rho_vec) * jnp.take(I_prev, obs_range, axis=0)\<close>.\<close>

definition renewal_I_smooth ::
  "real list \<Rightarrow> nat \<Rightarrow> real list list \<Rightarrow> nat \<Rightarrow> nat \<Rightarrow> real option list list" where
  "renewal_I_smooth rho_vec N_variant I_prev seed_L T =
     map (map (nan_mul (mean rho_vec))) (take_obs N_variant I_prev seed_L T)"

text \<open>
  The site \<open>r\<close>:
  \<^verbatim>\<open>jnp.diff(jnp.log(jnp.take(I_prev, obs_range, axis=0)), prepend=jnp.nan, axis=0)\<close>.
\<close>

definition renewal_r :: "nat \<Rightarrow> real list list \<Rightarrow> nat \<Rightarrow> nat \<Rightarrow> real option list list" where
  "renewal_r N_variant I_prev seed_L T =
     diff_prepend_nan (map (map nan_log) (take_obs N_variant I_prev seed_L T))"

subsection \<open>Frequencies in floating point\<close>












section \<open>A small instance of the libraries\<close>

text \<open>
  Keys are natural numbers, \<open>split k = (2k, 2k + 1)\<close>; \<^verbatim>\<open>random.split(key, n)\<close> raises
  for negative \<open>n\<close>; positions and sampler states are integers; a transition adds its
  key to the state; adaptation and \<open>init\<close> raise at the position \<open>None\<close>.
\<close>

definition example_kernel :: "(nat, int, int, nat) kernel" where
  "example_kernel =
     \<lparr>init = (\<lambda>p. case p of None \<Rightarrow> Inl (LibraryError ''kernel.init'') | Some x \<Rightarrow> Inr x),
      step = (\<lambda>k st. (st + int k, k))\<rparr>"

definition example_kernel_fn :: "(nat, int, int, nat, unit) kernel_fn" where
  "example_kernel_fn = (\<lambda>logdensity kwargs. Inr example_kernel)"

definition example_library :: "(nat, unit, unit, int, int list, int, nat, unit) library" where
  "example_library =
     \<lparr>PRNGKey = nat,
      split = (\<lambda>k. (2 * k, 2 * k + 1)),
      split_num = (\<lambda>k n. if n < 0 then Inl (LibraryError ''random.split'')
                           else Inr (map (\<lambda>i. k + i) [0..<nat n])),
      initialize_model = (\<lambda>k fn d. Inr (0, \<lambda>d p. real_of_int (p * p))),
      Predictive = (\<lambda>fn s k d. Inr [''y'' \<mapsto> [int k]]),
      window_adaptation = (\<lambda>kf ld kw n. Inr (\<lambda>k p.
         case p of None \<Rightarrow> Inl (LibraryError ''window_adaptation.run'')
                 | Some x \<Rightarrow> Inr (x + n, example_kernel))),
      position = (\<lambda>sts. [''theta'' \<mapsto> sts])\<rparr>"

definition example_model :: "(nat, unit, unit, int, int list) ModelSpec" where
  "example_model =
     \<lparr>backend = None, model_fn = Some (), logdensity_fn_gen = None, logdensity_fn = None,
      initial_position = None, initial_position_fn = None, pred_fn = None\<rparr>"

section \<open>Properties of the models\<close>

subsection \<open>Sums and normalisation\<close>

lemma sum_list_div: "sum_list (map (\<lambda>x. x / c) xs) = sum_list xs / (c::real)"
  by (induction xs) (auto simp: add_divide_distrib)

lemma sum_list_exp_pos: "0 < sum_list (map exp (xs @ [0::real]))"
  by (induction xs) (auto intro: add_pos_pos)


text \<open>
  The prevalence the renewal model works with is clipped to \<open>[1e-12, 1e32]\<close>: it is
  strictly positive, and a row of \<open>n\<close> entries adds up to at most \<open>n * 1e32\<close>.
\<close>

lemma clip_bounds: "a \<le> b \<Longrightarrow> a \<le> clip a b x \<and> clip a b x \<le> b"
  by (simp add: clip_def min_def max_def)

lemma I_prev_of_pos:
  assumes "row \<in> set (I_prev_of sim)" "x \<in> set row"
  shows "0 < x"
proof -
  from assms obtain y where "x = clip (1 / 10 ^ 12) (10 ^ 32) y"
    by (auto simp: I_prev_of_def)
  moreover have "(1 / 10 ^ 12 :: real) \<le> clip (1 / 10 ^ 12) (10 ^ 32) y"
    by (rule clip_bounds [THEN conjunct1]) simp
  ultimately show ?thesis by simp
qed

lemma I_prev_of_row_total:
  assumes "row \<in> set (I_prev_of sim)"
  shows "sum_list row \<le> real (length row) * 10 ^ 32"
proof -
  have "\<forall>x\<in>set row. x \<le> 10 ^ 32"
  proof
    fix x
    assume "x \<in> set row"
    with assms obtain y where "x = clip (1 / 10 ^ 12) (10 ^ 32) y"
      by (auto simp: I_prev_of_def)
    moreover have "clip (1 / 10 ^ 12) (10 ^ 32) y \<le> (10 ^ 32 :: real)"
      by (rule clip_bounds [THEN conjunct2]) simp
    ultimately show "x \<le> 10 ^ 32" by simp
  qed
  then show ?thesis
    by (induction row) (auto simp: algebra_simps)
qed

subsection \<open>Frequencies\<close>














subsection \<open>Reference variant\<close>

text \<open>
  Claim C10. The last variant is the reference variant. In the multinomial logistic
  regression, \<open>beta\<close> is \<open>raw_beta\<close> with one more column, which is zero in every row,
  whatever \<open>raw_beta\<close> was sampled. In the spline model, the last column of \<open>beta_mat\<close>
  is \<open>beta\<close> itself, and column \<open>j\<close> before it is \<open>beta\<close> plus the random walk
  \<open>delta_rw[j]\<close> of variant \<open>j\<close>.
\<close>

theorem last_variant_is_reference:
  assumes "length raw_beta = N_features"
    and "length beta = k"
  shows "(\<exists>B. MLR_beta N_features raw_beta = Some B \<and> length B = N_features \<and>
            (\<forall>i<N_features. butlast (B ! i) = raw_beta ! i \<and> last (B ! i) = 0))
       \<and> length (spline_beta_mat k beta delta_rw) = k
       \<and> (\<forall>i<k. butlast (spline_beta_mat k beta delta_rw ! i)
                    = map (\<lambda>row. beta ! i + row ! i) delta_rw
               \<and> last (spline_beta_mat k beta delta_rw ! i) = beta ! i)"
  using assms
  by (auto simp: MLR_beta_def column_stack_def spline_beta_mat_def transpose_T_def Let_def)

theorem last_variant_is_reference_witness:
  "length [[1, 2], [3, 4::real]] = 2 \<and> length (spline_beta 5 [1]) = 2
   \<and> MLR_beta 2 [[1, 2], [3, 4]] = Some [[1, 2, 0], [3, 4, 0]]
   \<and> last (the (MLR_beta 2 [[1, 2], [3, 4]]) ! 1) = 0
   \<and> spline_beta_mat 2 (spline_beta 5 [1]) [[7, 8]] = [[12, 5], [14, 6]]
   \<and> last (spline_beta_mat 2 (spline_beta 5 [1]) [[7, 8]] ! 1) = spline_beta 5 [1] ! 1"
proof -
  have h1: "length [[1, 2], [3, 4::real]] = 2" by simp
  have h2: "length (spline_beta 5 [1]) = 2" by (simp add: spline_beta_def)
  have v1: "MLR_beta 2 [[1, 2], [3, 4]] = Some [[1, 2, 0], [3, 4, 0]]"
    by (simp add: MLR_beta_def column_stack_def numeral_2_eq_2)
  have v2: "spline_beta_mat 2 (spline_beta 5 [1]) [[7, 8]] = [[12, 5], [14, 6]]"
    by (simp add: spline_beta_mat_def spline_beta_def transpose_T_def upt_rec numeral_2_eq_2)
  from last_variant_is_reference [OF h1 h2, of "[[7, 8]]"]
  have "last (the (MLR_beta 2 [[1, 2], [3, 4]]) ! 1) = 0"
    and "last (spline_beta_mat 2 (spline_beta 5 [1]) [[7, 8]] ! 1) = spline_beta 5 [1] ! 1"
    by auto
  with h1 h2 v1 v2 show ?thesis by simp
qed

subsection \<open>Growth rate\<close>

lemma nan_sub_log_scale:
  assumes "0 < c" "\<forall>x. a = Some x \<longrightarrow> 0 < x" "\<forall>x. b = Some x \<longrightarrow> 0 < x"
  shows "nan_sub (nan_log (nan_mul (Some c) a)) (nan_log (nan_mul (Some c) b))
       = nan_sub (nan_log a) (nan_log b)"
  using assms
  by (cases a; cases b) (auto simp: nan_log_def nan_mul_def nan_sub_def ln_mult)

lemma map2_nan_sub_scale:
  assumes "0 < c" "\<forall>a\<in>set xs. \<forall>x. a = Some x \<longrightarrow> 0 < x" "\<forall>b\<in>set ys. \<forall>x. b = Some x \<longrightarrow> 0 < x"
  shows "map2 nan_sub (map (\<lambda>a. nan_log (nan_mul (Some c) a)) xs)
           (map (\<lambda>a. nan_log (nan_mul (Some c) a)) ys)
       = map2 nan_sub (map nan_log xs) (map nan_log ys)"
  using assms(2,3)
proof (induction xs arbitrary: ys)
  case Nil
  then show ?case by simp
next
  case (Cons x xs)
  show ?case
  proof (cases ys)
    case Nil
    then show ?thesis by simp
  next
    case (Cons y ys')
    have "nan_sub (nan_log (nan_mul (Some c) x)) (nan_log (nan_mul (Some c) y))
           = nan_sub (nan_log x) (nan_log y)"
      using Cons.prems Cons by (intro nan_sub_log_scale [OF assms(1)]) auto
    moreover have "map2 nan_sub (map (\<lambda>a. nan_log (nan_mul (Some c) a)) xs)
           (map (\<lambda>a. nan_log (nan_mul (Some c) a)) ys')
       = map2 nan_sub (map nan_log xs) (map nan_log ys')"
      using Cons.prems Cons by (intro Cons.IH) auto
    ultimately show ?thesis
      using Cons by simp
  qed
qed

lemma map2_nan_sub_None:
  "map2 nan_sub xs (map (\<lambda>_. None) ys) = replicate (min (length xs) (length ys)) None"
proof (induction xs arbitrary: ys)
  case Nil
  then show ?case by simp
next
  case (Cons x xs)
  then show ?case
    by (cases ys) (simp_all add: nan_sub_def split: option.splits)
qed

lemma diff_prepend_nan_nth:
  assumes "i < length A"
  shows "diff_prepend_nan A ! i
       = (if i = 0 then replicate (length (A ! 0)) None else map2 nan_sub (A ! i) (A ! (i - 1)))"
proof (cases A)
  case Nil
  then show ?thesis using assms by simp
next
  case (Cons a A')
  then show ?thesis
    using assms by (cases i) (simp_all add: diff_prepend_nan_def map2_nan_sub_None)
qed

lemma length_diff_prepend_nan: "length (diff_prepend_nan A) = length A"
  by (cases A) (simp_all add: diff_prepend_nan_def)

lemma diff_prepend_nan_scale:
  assumes "0 < c" "\<forall>row\<in>set A. \<forall>a\<in>set row. \<forall>x. a = Some x \<longrightarrow> 0 < x"
  shows "diff_prepend_nan (map (map nan_log) (map (map (nan_mul (Some c))) A))
       = diff_prepend_nan (map (map nan_log) A)"
proof (rule nth_equalityI)
  show "length (diff_prepend_nan (map (map nan_log) (map (map (nan_mul (Some c))) A)))
      = length (diff_prepend_nan (map (map nan_log) A))"
    by (simp add: length_diff_prepend_nan)
next
  fix i
  assume "i < length (diff_prepend_nan (map (map nan_log) (map (map (nan_mul (Some c))) A)))"
  then have i: "i < length A"
    by (simp add: length_diff_prepend_nan)
  show "diff_prepend_nan (map (map nan_log) (map (map (nan_mul (Some c))) A)) ! i
      = diff_prepend_nan (map (map nan_log) A) ! i"
  proof (cases i)
    case 0
    then show ?thesis using i by (simp add: diff_prepend_nan_nth)
  next
    case (Suc j)
    then have "A ! i \<in> set A" "A ! j \<in> set A" using i by simp_all
    then have "map2 nan_sub (map (\<lambda>a. nan_log (nan_mul (Some c) a)) (A ! i))
           (map (\<lambda>a. nan_log (nan_mul (Some c) a)) (A ! j))
       = map2 nan_sub (map nan_log (A ! i)) (map nan_log (A ! j))"
      using assms(2) by (intro map2_nan_sub_scale [OF assms(1)]) blast+
    then show ?thesis
      using i Suc by (simp add: diff_prepend_nan_nth comp_def)
  qed
qed

lemma take_obs_pos:
  assumes "\<forall>row\<in>set I_prev. \<forall>x\<in>set row. 0 < x"
  shows "\<forall>row\<in>set (take_obs N I_prev seed_L T). \<forall>a\<in>set row. \<forall>x. a = Some x \<longrightarrow> 0 < x"
proof (intro ballI allI impI)
  fix row a x
  assume row: "row \<in> set (take_obs N I_prev seed_L T)" and a: "a \<in> set row" "a = Some x"
  from row have "row \<in> (\<lambda>i. if i < length I_prev then map Some (I_prev ! i) else replicate N None)
                     ` set (obs_range seed_L T)"
    by (simp add: take_obs_def take_rows_def)
  then obtain i where
    "row = (if i < length I_prev then map Some (I_prev ! i) else replicate N None)"
    by blast
  with a have "i < length I_prev" "x \<in> set (I_prev ! i)"
    by (auto split: if_splits)
  then show "0 < x"
    using assms nth_mem by blast
qed

lemma mean_pos:
  assumes "rho_vec \<noteq> []" "\<forall>x\<in>set rho_vec. 0 < x"
  shows "\<exists>c. mean rho_vec = Some c \<and> 0 < c"
proof -
  have "0 < sum_list rho_vec"
    using assms by (induction rho_vec) (auto intro: add_pos_nonneg sum_list_nonneg less_imp_le)
  then show ?thesis using assms(1) by (simp add: mean_def)
qed

lemma length_take_obs: "length (take_obs N I_prev seed_L T) = T"
  by (simp add: take_obs_def take_rows_def obs_range_def)

text \<open>
  Claim C9. For a strictly positive prevalence and a non-empty, strictly positive
  reporting vector, the site \<open>r\<close> of the renewal model, computed from the prevalence
  itself, is the log-difference (with the \<open>nan\<close> first row) of the site \<open>I_smooth\<close>:
  smoothing multiplies every entry by the same positive number \<open>mean(rho_vec)\<close>. The
  first row of \<open>r\<close> is \<open>nan\<close> throughout. Logarithms and differences are those of exact
  reals.
\<close>

theorem growth_rate_is_log_difference_of_I_smooth:
  assumes "\<forall>row\<in>set I_prev. \<forall>x\<in>set row. 0 < x"
    and "rho_vec \<noteq> []" and "\<forall>x\<in>set rho_vec. 0 < x"
  shows "renewal_r N_variant I_prev seed_L T
         = diff_prepend_nan (map (map nan_log) (renewal_I_smooth rho_vec N_variant I_prev seed_L T))
       \<and> length (renewal_r N_variant I_prev seed_L T) = T
       \<and> (0 < T \<longrightarrow> renewal_r N_variant I_prev seed_L T ! 0
              = replicate (length (take_obs N_variant I_prev seed_L T ! 0)) None)"
proof -
  from mean_pos [OF assms(2,3)] obtain c where c: "mean rho_vec = Some c" "0 < c"
    by blast
  have "diff_prepend_nan (map (map nan_log) (map (map (nan_mul (Some c))) (take_obs N_variant I_prev seed_L T)))
      = diff_prepend_nan (map (map nan_log) (take_obs N_variant I_prev seed_L T))"
    by (rule diff_prepend_nan_scale [OF c(2) take_obs_pos [OF assms(1)]])
  then have "renewal_r N_variant I_prev seed_L T
         = diff_prepend_nan (map (map nan_log) (renewal_I_smooth rho_vec N_variant I_prev seed_L T))"
    unfolding renewal_r_def renewal_I_smooth_def c(1) by (rule sym)
  moreover have "length (renewal_r N_variant I_prev seed_L T) = T"
    by (simp add: renewal_r_def length_diff_prepend_nan length_take_obs)
  moreover have "renewal_r N_variant I_prev seed_L T ! 0
              = replicate (length (take_obs N_variant I_prev seed_L T ! 0)) None" if "0 < T"
    using that by (simp add: renewal_r_def diff_prepend_nan_nth length_take_obs)
  ultimately show ?thesis by blast
qed

theorem growth_rate_is_log_difference_of_I_smooth_witness:
  "renewal_r 1 [[1], [1], [2], [4]] 1 3
     = diff_prepend_nan (map (map nan_log) (renewal_I_smooth [1 / 2, 1 / 4] 1 [[1], [1], [2], [4]] 1 3))
   \<and> renewal_I_smooth [1 / 2, 1 / 4] 1 [[1], [1], [2], [4]] 1 3
     = [[Some (3 / 8)], [Some (3 / 4)], [Some (3 / 2)]]
   \<and> renewal_r 1 [[1], [1], [2], [4]] 1 3 = [[None], [Some (ln 2)], [Some (ln 4 - ln 2)]]"
proof -
  have h1: "\<forall>row\<in>set [[1], [1], [2], [4::real]]. \<forall>x\<in>set row. 0 < x"
    by simp
  have h2: "[1 / 2, 1 / 4 :: real] \<noteq> []"
    by simp
  have h3: "\<forall>x\<in>set [1 / 2, 1 / 4 :: real]. 0 < x"
    by simp
  have v1: "renewal_I_smooth [1 / 2, 1 / 4] 1 [[1], [1], [2], [4]] 1 3
     = [[Some (3 / 8)], [Some (3 / 4)], [Some (3 / 2)]]"
    by (simp add: renewal_I_smooth_def take_obs_def take_rows_def obs_range_def mean_def
        nan_mul_def upt_rec)
  have v2: "renewal_r 1 [[1], [1], [2], [4]] 1 3 = [[None], [Some (ln 2)], [Some (ln 4 - ln 2)]]"
    by (simp add: renewal_r_def take_obs_def take_rows_def obs_range_def diff_prepend_nan_def
        nan_log_def nan_sub_def upt_rec)
  from growth_rate_is_log_difference_of_I_smooth [OF h1 h2 h3, of 1 1 3] v1 v2
  show ?thesis by blast
qed

subsection \<open>Reporting cycle\<close>

text \<open>
  Claim C6, as the code has it. In the renewal model the cycle handed to
  \<^verbatim>\<open>reporting_to_vec\<close> is \<open>renewal_rho\<close>: the exponentials of the sampled logits (times
  3) followed by one reference entry \<open>exp 0 = 1\<close>, all divided by their sum, so the cycle
  has one entry more than was sampled and sums to 1. In the spline model the cycle is
  the sampled vector \<open>rho\<close> itself: no reference entry is added and nothing is
  normalised.
\<close>

theorem reporting_cycle:
  "renewal_rho_vec reporting_to_vec s T = reporting_to_vec (renewal_rho s) T
   \<and> renewal_rho s
       = map (\<lambda>x. x / (sum_list (map (\<lambda>x. exp (x * 3)) s) + 1)) (map (\<lambda>x. exp (x * 3)) s @ [1])
   \<and> length (renewal_rho s) = length s + 1
   \<and> sum_list (renewal_rho s) = 1
   \<and> spline_rho_vec reporting_to_vec rho T = reporting_to_vec rho T"
proof -
  have pos: "0 < sum_list (map exp (map (\<lambda>x. x * 3) s @ [0]))"
    by (rule sum_list_exp_pos)
  have "sum_list (renewal_rho s) = 1"
    unfolding renewal_rho_def Let_def sum_list_div using pos by simp
  moreover have "renewal_rho s
       = map (\<lambda>x. x / (sum_list (map (\<lambda>x. exp (x * 3)) s) + 1)) (map (\<lambda>x. exp (x * 3)) s @ [1])"
    by (simp add: renewal_rho_def Let_def comp_def)
  ultimately show ?thesis
    by (simp add: renewal_rho_vec_def spline_rho_vec_def)
qed

text \<open>
  The claim as stated fails for the spline model. With the tiling function replaced
  by one that returns the cycle it is handed, seven sampled fractions \<open>1/2\<close> arrive as
  they are: seven entries, none of them a reference value 1, with sum \<open>7/2\<close>.
\<close>

theorem spline_cycle_not_normalised:
  "spline_rho_vec (\<lambda>cycle T. cycle) (replicate 7 (1 / 2)) 14 = replicate 7 (1 / 2)
   \<and> length (spline_rho_vec (\<lambda>cycle T. cycle) (replicate 7 (1 / 2)) 14) = 7
   \<and> 1 \<notin> set (spline_rho_vec (\<lambda>cycle T. cycle) (replicate 7 (1 / 2)) 14)
   \<and> sum_list (spline_rho_vec (\<lambda>cycle T. cycle) (replicate 7 (1 / 2)) 14) = 7 / 2
   \<and> sum_list (spline_rho_vec (\<lambda>cycle T. cycle) (replicate 7 (1 / 2)) 14) \<noteq> 1"
  by (simp add: spline_rho_vec_def sum_list_replicate)

subsection \<open>Seeding window\<close>

lemma at_upd_shape:
  "length (at_upd iv B) = length B \<and> length (at_upd iv B ! r) = length (B ! r)"
  by (cases iv) (auto simp: at_upd_def nth_list_update)

lemma fold_at_upd_shape:
  "length (fold at_upd ivs B) = length B \<and> length (fold at_upd ivs B ! r) = length (B ! r)"
  by (induction ivs arbitrary: B) (simp_all add: at_upd_shape)

lemma at_upd_other:
  assumes "fst iv \<noteq> (t, v)"
  shows "at_upd iv B ! t ! v = B ! t ! v"
proof -
  obtain r c x where iv: "iv = ((r, c), x)"
    by (metis prod.collapse)
  show ?thesis
  proof (cases "r < length B \<and> c < length (B ! r)")
    case False
    then show ?thesis by (auto simp: iv at_upd_def)
  next
    case True
    show ?thesis
    proof (cases "r = t")
      case True
      then have "c \<noteq> v" using assms iv by simp
      then show ?thesis
        using \<open>r < length B \<and> c < length (B ! r)\<close> \<open>r = t\<close> by (simp add: iv at_upd_def)
    next
      case False
      then show ?thesis by (simp add: iv at_upd_def)
    qed
  qed
qed

lemma at_upd_same:
  "t < length B \<Longrightarrow> v < length (B ! t) \<Longrightarrow> at_upd ((t, v), x) B ! t ! v = x"
  by (simp add: at_upd_def)

lemma fold_at_upd_untouched:
  "(t, v) \<notin> fst ` set ivs \<Longrightarrow> fold at_upd ivs B ! t ! v = B ! t ! v"
  by (induction ivs arbitrary: B) (auto simp: at_upd_other)

lemma fold_at_upd_hit:
  assumes "t < length B" "v < length (B ! t)"
    and "(t, v) \<in> fst ` set ivs"
    and "\<forall>iv\<in>set ivs. fst iv = (t, v) \<longrightarrow> snd iv = x"
  shows "fold at_upd ivs B ! t ! v = x"
  using assms
proof (induction ivs arbitrary: B)
  case Nil
  then show ?case by simp
next
  case (Cons iv ivs)
  have shape: "t < length (at_upd iv B)" "v < length (at_upd iv B ! t)"
    using Cons.prems(1,2) by (simp_all add: at_upd_shape)
  show ?case
  proof (cases "(t, v) \<in> fst ` set ivs")
    case True
    then show ?thesis
      using Cons.IH [OF shape] Cons.prems(4) by simp
  next
    case False
    then have iv: "iv = ((t, v), x)"
      using Cons.prems(3,4) by (cases iv) auto
    have "fold at_upd ivs (at_upd iv B) ! t ! v = at_upd iv B ! t ! v"
      by (rule fold_at_upd_untouched [OF False])
    also have "\<dots> = x"
      unfolding iv by (rule at_upd_same [OF Cons.prems(1,2)])
    finally show ?thesis by simp
  qed
qed


lemma tile_Suc: "tile xs (Suc n) = tile xs n @ xs"
  by (induction n) (simp_all add: tile_def)

lemma zip_blocks:
  assumes "length fo = N" "length I0 = N"
  shows "zip (zip (concat (map (\<lambda>d. map (\<lambda>f. f + d) fo) [0..<n])) (tile [0..<N] n)) (tile I0 n)
       = concat (map (\<lambda>d. map (\<lambda>v. ((fo ! v + d, v), I0 ! v)) [0..<N]) [0..<n])"
proof (induction n)
  case 0
  then show ?case by (simp add: tile_def)
next
  case (Suc n)
  have block: "zip (zip (map (\<lambda>f. f + n) fo) [0..<N]) I0 = map (\<lambda>v. ((fo ! v + n, v), I0 ! v)) [0..<N]"
    using assms by (intro nth_equalityI) simp_all
  have len: "length (concat (map (\<lambda>d. map (\<lambda>f. f + d) fo) [0..<n])) = n * N"
    "length (tile [0..<N] n) = n * N" "length (tile I0 n) = n * N"
    using assms by (induction n) (simp_all add: tile_def)
  show ?case
    using Suc block len by (simp add: tile_Suc zip_append)
qed


lemma argmax_bool_first:
  "True \<in> set bs \<Longrightarrow>
     argmax_bool bs < length bs \<and> bs ! argmax_bool bs \<and> (\<forall>i<argmax_bool bs. \<not> bs ! i)"
proof (induction bs)
  case Nil
  then show ?case by simp
next
  case (Cons b bs)
  show ?case
  proof (cases b)
    case True
    then show ?thesis by (simp add: argmax_bool_def)
  next
    case False
    then have "True \<in> set bs" using Cons.prems by auto
    then show ?thesis
      using Cons.IH False by (auto simp: argmax_bool_def nth_Cons' less_Suc_eq_0_disj)
  qed
qed

lemma argmax_bool_none: "True \<notin> set bs \<Longrightarrow> argmax_bool bs = 0"
  by (simp add: argmax_bool_def)

lemma first_obs_nonempty:
  "seq_counts \<noteq> [] \<Longrightarrow>
     first_obs seq_counts
       = Inr (map (\<lambda>v. argmax_bool (map (\<lambda>r. nonzero_valid (r ! v)) seq_counts))
                [0..<length (hd seq_counts)])"
  by (cases seq_counts) (simp_all add: first_obs_def)

lemma seed_entries:
  assumes "length fo = N" "length I0 = N" "t < R" "v < N"
  shows "at_set (zeros R N) (concat (map (\<lambda>d. map (\<lambda>f. f + d) fo) [0..<n]), tile [0..<N] n)
           (tile I0 n) ! t ! v
       = (if fo ! v \<le> t \<and> t < fo ! v + n then I0 ! v else 0)"
proof -
  let ?ivs = "concat (map (\<lambda>d. map (\<lambda>v. ((fo ! v + d, v), I0 ! v)) [0..<N]) [0..<n])"
  have set_ivs: "set ?ivs = {((fo ! w + d, w), I0 ! w) | d w. d < n \<and> w < N}"
    by auto
  have at: "at_set (zeros R N) (concat (map (\<lambda>d. map (\<lambda>f. f + d) fo) [0..<n]), tile [0..<N] n)
           (tile I0 n) = fold at_upd ?ivs (zeros R N)"
    by (simp add: at_set_def zip_blocks [OF assms(1,2)])
  have shape: "t < length (zeros R N)" "v < length (zeros R N ! t)" "zeros R N ! t ! v = 0"
    using assms(3,4) by (simp_all add: zeros_def)
  show ?thesis
  proof (cases "fo ! v \<le> t \<and> t < fo ! v + n")
    case True
    then have "((fo ! v + (t - fo ! v), v), I0 ! v) \<in> set ?ivs"
      unfolding set_ivs using assms(4) by (intro CollectI exI [of _ "t - fo ! v"] exI [of _ v]) auto
    then have "(t, v) \<in> fst ` set ?ivs"
      using True by force
    moreover have "\<forall>iv\<in>set ?ivs. fst iv = (t, v) \<longrightarrow> snd iv = I0 ! v"
      unfolding set_ivs by auto
    ultimately show ?thesis
      using True fold_at_upd_hit [OF shape(1,2)] by (simp add: at)
  next
    case False
    then have "(t, v) \<notin> fst ` set ?ivs"
      unfolding set_ivs by (auto simp: image_iff)
    then have "fold at_upd ?ivs (zeros R N) ! t ! v = zeros R N ! t ! v"
      by (rule fold_at_upd_untouched)
    then show ?thesis
      using False shape(3) by (auto simp: at)
  qed
qed

text \<open>
  Claim C5, as the code has it. Row \<open>t\<close> of \<open>intros\<close> is day \<open>t - seed_L\<close>: the observed
  days are the rows \<open>obs_range\<close>, so the first-detection day \<open>fo ! v\<close> of variant \<open>v\<close> (the
  first day with a valid non-zero count, day 0 when there is none) is row
  \<open>seed_L + fo ! v\<close>. The seed \<open>exp (logI0_sample ! v * 3)\<close> is written to the \<open>seed_L\<close>
  rows \<open>fo ! v, ..., fo ! v + seed_L - 1\<close>, that is to the days
  \<open>fo ! v - seed_L, ..., fo ! v - 1\<close>: the window ends on the day before the first
  detection, every other entry of the column is 0, and the row of the first-detection
  day itself holds 0.
\<close>

theorem seeding_window:
  assumes "seq_counts \<noteq> []" and "0 < seed_L"
    and "length logI0_sample = length (hd seq_counts)"
  shows "\<exists>fo intros.
      first_obs seq_counts = Inr fo \<and> length fo = length (hd seq_counts)
    \<and> renewal_intros seq_counts seed_L forecast_L logI0_sample = Inr intros
    \<and> length intros = length seq_counts + seed_L + forecast_L
    \<and> (\<forall>v<length (hd seq_counts).
          fo ! v < length seq_counts
        \<and> (if \<exists>t<length seq_counts. nonzero_valid (seq_counts ! t ! v)
            then nonzero_valid (seq_counts ! (fo ! v) ! v)
               \<and> (\<forall>t<fo ! v. \<not> nonzero_valid (seq_counts ! t ! v))
            else fo ! v = 0)
        \<and> (\<forall>t<length seq_counts + seed_L + forecast_L.
              intros ! t ! v
                = (if fo ! v \<le> t \<and> t < fo ! v + seed_L then exp (logI0_sample ! v * 3) else 0))
        \<and> intros ! (obs_range seed_L (length seq_counts) ! (fo ! v)) ! v = 0)"
proof -
  let ?T = "length seq_counts" and ?N = "length (hd seq_counts)"
  let ?R = "?T + seed_L + forecast_L"
  let ?fo = "map (\<lambda>v. argmax_bool (map (\<lambda>r. nonzero_valid (r ! v)) seq_counts)) [0..<?N]"
  let ?I0 = "map exp (map (\<lambda>x. x * 3) logI0_sample)"
  let ?intros = "at_set (zeros ?R ?N)
                   (concat (map (\<lambda>d. map (\<lambda>f. f + d) ?fo) [0..<seed_L]), tile [0..<?N] seed_L)
                   (tile ?I0 seed_L)"
  have fo: "first_obs seq_counts = Inr ?fo"
    by (rule first_obs_nonempty [OF assms(1)])
  have N: "(case seq_counts of [] \<Rightarrow> 0 | row # _ \<Rightarrow> length row) = ?N"
    using assms(1) by (cases seq_counts) simp_all
  have intros: "renewal_intros seq_counts seed_L forecast_L logI0_sample = Inr ?intros"
    using assms(2) by (simp add: renewal_intros_def fo intro_dates_def Let_def N)
  have len: "length ?intros = ?R"
    by (simp add: at_set_def fold_at_upd_shape zeros_def)
  have lens: "length ?fo = ?N" "length ?I0 = ?N"
    using assms(3) by simp_all
  have entries: "?intros ! t ! v
        = (if ?fo ! v \<le> t \<and> t < ?fo ! v + seed_L then exp (logI0_sample ! v * 3) else 0)"
    if "t < ?R" "v < ?N" for t v
    using seed_entries [OF lens that, of seed_L] that(2) assms(3) by simp
  have detect: "?fo ! v < ?T
        \<and> (if \<exists>t<?T. nonzero_valid (seq_counts ! t ! v)
            then nonzero_valid (seq_counts ! (?fo ! v) ! v)
               \<and> (\<forall>t<?fo ! v. \<not> nonzero_valid (seq_counts ! t ! v))
            else ?fo ! v = 0)"
    if "v < ?N" for v
  proof -
    let ?bs = "map (\<lambda>r. nonzero_valid (r ! v)) seq_counts"
    have fov: "?fo ! v = argmax_bool ?bs" using that by simp
    show ?thesis
    proof (cases "True \<in> set ?bs")
      case True
      from argmax_bool_first [OF True]
      have a: "argmax_bool ?bs < ?T" "?bs ! argmax_bool ?bs" "\<forall>i<argmax_bool ?bs. \<not> ?bs ! i"
        by (simp_all del: nth_map)
      have "\<exists>t<?T. nonzero_valid (seq_counts ! t ! v)"
        using a(1,2) by auto
      moreover have "nonzero_valid (seq_counts ! argmax_bool ?bs ! v)"
        using a(1,2) by simp
      moreover have "\<forall>t<argmax_bool ?bs. \<not> nonzero_valid (seq_counts ! t ! v)"
      proof (intro allI impI)
        fix t
        assume t: "t < argmax_bool ?bs"
        then have "?bs ! t = nonzero_valid (seq_counts ! t ! v)"
          using a(1) by simp
        then show "\<not> nonzero_valid (seq_counts ! t ! v)"
          using a(3) t by blast
      qed
      ultimately show ?thesis
        using a(1) unfolding fov by simp
    next
      case False
      then have "\<not> (\<exists>t<?T. nonzero_valid (seq_counts ! t ! v))"
        using nth_mem [of _ seq_counts] by auto
      then show ?thesis
        using argmax_bool_none [OF False] assms(1) unfolding fov by simp
    qed
  qed
  have day: "?intros ! (obs_range seed_L ?T ! (?fo ! v)) ! v = 0" if "v < ?N" for v
  proof -
    have lt: "?fo ! v < ?T" using detect [OF that] by blast
    then have "obs_range seed_L ?T ! (?fo ! v) = seed_L + ?fo ! v"
      by (simp add: obs_range_def)
    moreover have "seed_L + ?fo ! v < ?R" using lt by simp
    ultimately show ?thesis
      using entries [OF _ that, of "seed_L + ?fo ! v"] assms(2) by simp
  qed
  show ?thesis
    using fo intros len lens(1) entries detect day by (intro exI [of _ ?fo] exI [of _ ?intros]) blast
qed

theorem seeding_window_witness:
  "[[Some (0::int)], [Some 5], [Some 2]] \<noteq> [] \<and> (0::nat) < 2
   \<and> length [0::real] = length (hd [[Some (0::int)], [Some 5], [Some 2]])
   \<and> (\<exists>fo intros.
        first_obs [[Some (0::int)], [Some 5], [Some 2]] = Inr fo
      \<and> renewal_intros [[Some (0::int)], [Some 5], [Some 2]] 2 0 [0] = Inr intros
      \<and> length intros = 5
      \<and> intros ! (obs_range 2 (length [[Some (0::int)], [Some 5], [Some 2]]) ! (fo ! 0)) ! 0 = 0)"
proof -
  have h1: "[[Some (0::int)], [Some 5], [Some 2]] \<noteq> []"
    by simp
  have h2: "(0::nat) < 2"
    by simp
  have h3: "length [0::real] = length (hd [[Some (0::int)], [Some 5], [Some 2]])"
    by simp
  from seeding_window [OF h1 h2 h3, of 0]
  obtain fo intros where
    "first_obs [[Some (0::int)], [Some 5], [Some 2]] = Inr fo"
    "renewal_intros [[Some (0::int)], [Some 5], [Some 2]] 2 0 [0] = Inr intros"
    "length intros = length [[Some (0::int)], [Some 5], [Some 2]] + 2 + 0"
    "\<forall>v<length (hd [[Some (0::int)], [Some 5], [Some 2]]).
       intros ! (obs_range 2 (length [[Some (0::int)], [Some 5], [Some 2]]) ! (fo ! v)) ! v = 0"
    by blast
  then show ?thesis
    using h1 h2 h3 by (intro conjI exI [of _ fo] exI [of _ intros]) simp_all
qed

text \<open>
  The claim as stated fails. Three days of counts \<open>0, 5, 2\<close> of one variant,
  \<open>seed_L = 2\<close>, \<open>logI0_sample = 0\<close> (seed \<open>exp 0 = 1\<close>): the first detection is day 1,
  which is row \<open>obs_range 2 3 ! 1 = 3\<close>. The claim puts the seed on days 0 and 1, rows 2
  and 3; the code puts it on rows 1 and 2, and row 3 holds 0.
\<close>

theorem seeding_window_ends_before_detection:
  "first_obs [[Some (0::int)], [Some 5], [Some 2]] = Inr [1]
   \<and> obs_range 2 3 = [2, 3, 4]
   \<and> renewal_intros [[Some (0::int)], [Some 5], [Some 2]] 2 0 [0] = Inr [[0], [1], [1], [0], [0]]"
  by (simp add: renewal_intros_def first_obs_def intro_dates_def at_set_def at_upd_def tile_def
      zeros_def argmax_bool_def nonzero_valid_def obs_range_def upt_rec numeral_2_eq_2
      numeral_3_eq_3)

section \<open>Properties of the orchestrator\<close>

subsection \<open>The predictive path\<close>

lemma merge_keeps_keys: "dom s \<subseteq> dom (s ++ p)"
  by auto

lemma BlackJaxNumpyro_predict_Inr:
  "BlackJaxNumpyro_predict L key f data s = Inr r \<longleftrightarrow>
     (\<exists>p. Predictive L f s (snd (split L key)) data = Inr p \<and> r = s ++ p)"
  by (auto simp: BlackJaxNumpyro_predict_def Let_def split: prod.splits sum.splits)

lemma BlackJaxProvided_predict_Inr:
  "BlackJaxProvided_predict key model data s = Inr r \<longleftrightarrow>
     (case pred_fn model of
        None \<Rightarrow> r = s
      | Some f \<Rightarrow> \<exists>p. f key s data = Inr p \<and> r = s ++ p)"
  by (auto simp: BlackJaxProvided_predict_def split: option.splits sum.splits)


lemma predict'_None:
  assumes "backend_in_force model b = None" "predict' L key model data s b = Inr r"
  shows "\<exists>f p. model_fn model = Some f
            \<and> Predictive L f s (snd (split L key)) data = Inr p \<and> r = s ++ p"
proof (cases "model_fn model")
  case None
  then show ?thesis
    using assms by (simp add: predict'_def get_model_fn_def)
next
  case (Some f)
  then have "BlackJaxNumpyro_predict L key f data s = Inr r"
    using assms by (simp add: predict'_def get_model_fn_def)
  then show ?thesis
    using Some by (simp add: BlackJaxNumpyro_predict_Inr)
qed

lemma predict'_NUMPYRO:
  assumes "backend_in_force model b = Some NUMPYRO" "predict' L key model data s b = Inr r"
  shows "\<exists>f p. model_fn model = Some f
            \<and> Predictive L f s (snd (split L key)) data = Inr p \<and> r = s ++ p"
proof (cases "model_fn model")
  case None
  then show ?thesis
    using assms by (simp add: predict'_def get_model_fn_def)
next
  case (Some f)
  then have "BlackJaxNumpyro_predict L key f data s = Inr r"
    using assms by (simp add: predict'_def get_model_fn_def)
  then show ?thesis
    using Some by (simp add: BlackJaxNumpyro_predict_Inr)
qed

lemma predict'_PROVIDED:
  assumes "backend_in_force model b = Some PROVIDED" "predict' L key model data s b = Inr r"
  shows "case pred_fn model of
           None \<Rightarrow> r = s
         | Some f \<Rightarrow> \<exists>p. f key s data = Inr p \<and> r = s ++ p"
proof -
  have "BlackJaxProvided_predict key model data s = Inr r"
    using assms by (simp add: predict'_def)
  then show ?thesis
    by (simp only: BlackJaxProvided_predict_Inr)
qed

lemma predict'_OtherBackend:
  assumes "backend_in_force model b = Some (OtherBackend x)"
  shows "predict' L key model data s b = Inr Map.empty"
  using assms by (simp add: predict'_def)

text \<open>
  Claim C1, as the code has it. When \<open>predict'\<close> returns \<open>r\<close>:
  with no backend or the backend \<open>NUMPYRO\<close>, the model has a \<open>model_fn\<close> and \<open>r\<close> is the
  samples merged with what \<open>Predictive\<close> returned; with the backend \<open>PROVIDED\<close>, \<open>r\<close> is the
  samples themselves when the model has no \<open>pred_fn\<close>, and the samples merged with what
  \<open>pred_fn\<close> returned otherwise; with any other backend, \<open>r\<close> is the empty mapping. In a
  merge \<open>s ++ p\<close> the entries of \<open>p\<close> take precedence, so for the three known backends
  every sampled key is a key of \<open>r\<close>, and it keeps its value unless the predictive
  mapping has the same key.
\<close>

theorem predict_merges_into_samples:
  assumes "predict' L key model data s b = Inr r"
  shows "(case backend_in_force model b of
            Some (OtherBackend x) \<Rightarrow> r = Map.empty
          | Some PROVIDED \<Rightarrow>
              (case pred_fn model of
                 None \<Rightarrow> r = s
               | Some f \<Rightarrow> \<exists>p. f key s data = Inr p \<and> r = s ++ p)
          | _ \<Rightarrow> \<exists>f p. model_fn model = Some f
                      \<and> Predictive L f s (snd (split L key)) data = Inr p \<and> r = s ++ p)
       \<and> ((\<forall>x. backend_in_force model b \<noteq> Some (OtherBackend x)) \<longrightarrow> dom s \<subseteq> dom r)"
proof (cases "backend_in_force model b")
  case None
  from predict'_None [OF None assms] obtain f p where
    fp: "model_fn model = Some f" "Predictive L f s (snd (split L key)) data = Inr p" "r = s ++ p"
    by blast
  have "dom s \<subseteq> dom r"
    unfolding fp(3) by (rule merge_keeps_keys)
  then show ?thesis
    using predict'_None [OF None assms] by (simp add: None)
next
  case (Some be)
  show ?thesis
  proof (cases be)
    case NUMPYRO
    then have be: "backend_in_force model b = Some NUMPYRO"
      using Some by simp
    from predict'_NUMPYRO [OF be assms] obtain f p where
      fp: "model_fn model = Some f" "Predictive L f s (snd (split L key)) data = Inr p" "r = s ++ p"
      by blast
    have "dom s \<subseteq> dom r"
      unfolding fp(3) by (rule merge_keeps_keys)
    then show ?thesis
      using predict'_NUMPYRO [OF be assms] by (simp add: be)
  next
    case PROVIDED
    then have be: "backend_in_force model b = Some PROVIDED"
      using Some by simp
    note pr = predict'_PROVIDED [OF be assms]
    have "dom s \<subseteq> dom r"
    proof (cases "pred_fn model")
      case None
      then show ?thesis using pr by simp
    next
      case (Some f)
      then obtain p where "r = s ++ p" using pr by auto
      then show ?thesis by (simp only: merge_keeps_keys)
    qed
    then show ?thesis
      using pr by (simp add: be)
  next
    case (OtherBackend x)
    then have be: "backend_in_force model b = Some (OtherBackend x)"
      using Some by simp
    have "r = Map.empty"
      using predict'_OtherBackend [OF be, of L key data s] assms by simp
    then show ?thesis
      by (simp add: be)
  qed
qed

theorem predict_merges_into_samples_witness:
  "predict' example_library 7 example_model () [''beta'' \<mapsto> [1]] None
     = Inr [''beta'' \<mapsto> [1], ''y'' \<mapsto> [15]]
   \<and> dom [''beta'' \<mapsto> [1::int]] \<subseteq> dom [''beta'' \<mapsto> [1::int], ''y'' \<mapsto> [15]]"
proof -
  have h: "predict' example_library 7 example_model () [''beta'' \<mapsto> [1]] None
     = Inr [''beta'' \<mapsto> [1], ''y'' \<mapsto> [15]]"
    by (simp add: predict'_def backend_in_force_def example_model_def get_model_fn_def
        BlackJaxNumpyro_predict_def example_library_def)
  have "backend_in_force example_model None = None"
    by (simp add: backend_in_force_def example_model_def)
  with predict_merges_into_samples [OF h] have "dom [''beta'' \<mapsto> [1::int]] \<subseteq> dom [''beta'' \<mapsto> [1::int], ''y'' \<mapsto> [15]]"
    by simp
  with h show ?thesis by simp
qed

text \<open>
  The claim as stated fails twice. A backend that is neither \<open>NUMPYRO\<close> nor \<open>PROVIDED\<close>
  gives the empty mapping, which drops the sampled key \<open>beta\<close>. And with the backend
  \<open>PROVIDED\<close>, a \<open>pred_fn\<close> that returns the key \<open>beta\<close> replaces the sampled value.
\<close>

theorem predict_can_drop_sampled_pairs:
  "predict' example_library 7 (example_model\<lparr>backend := Some (Some (OtherBackend ''numpyro''))\<rparr>) ()
       [''beta'' \<mapsto> [1]] None = Inr Map.empty
   \<and> \<not> [''beta'' \<mapsto> [1::int]] \<subseteq>\<^sub>m Map.empty
   \<and> predict' example_library 7
       (example_model\<lparr>backend := Some (Some PROVIDED),
                       pred_fn := Some (\<lambda>k s d. Inr [''beta'' \<mapsto> [2]])\<rparr>) ()
       [''beta'' \<mapsto> [1]] None = Inr [''beta'' \<mapsto> [2]]
   \<and> \<not> [''beta'' \<mapsto> [1::int]] \<subseteq>\<^sub>m [''beta'' \<mapsto> [2]]"
  by (simp add: predict'_def backend_in_force_def example_model_def BlackJaxProvided_predict_def
      map_le_def)

subsection \<open>The stored random-number state\<close>

text \<open>
  Claim C2 fails on the code for \<^verbatim>\<open>predict\<close>. The method hands the stored key itself
  to \<open>predict'\<close> and assigns nothing: the handler, and with it the stored key, is after
  the call what it was before. (\<^verbatim>\<open>fit\<close> and \<^verbatim>\<open>run_warmup\<close> assign the first half of a
  split to \<open>rng_key\<close> before using the second.)
\<close>

theorem predict_leaves_rng_key:
  "snd (predict L self model data) = self
   \<and> rng_key (snd (predict L self model data)) = rng_key self"
proof -
  have "snd (predict L self model data) = self"
  proof (cases "samples L self")
    case (Inl e)
    then show ?thesis by (simp add: predict_def)
  next
    case (Inr s)
    then show ?thesis by (simp add: predict_def)
  qed
  then show ?thesis by simp
qed

text \<open>
  A run of \<^verbatim>\<open>fit\<close> on the small instance, with warm-up: the stored key goes from 100
  to 800 (three splits: initialisation, warm-up, sampling), and two states are collected.
\<close>

lemma fit_example:
  "rng_key (BlackJaxHandler_init example_library example_kernel_fn ()) = 100
   \<and> fit example_library (BlackJaxHandler_init example_library example_kernel_fn ()) example_model () 1 2
       = (None, (BlackJaxHandler_init example_library example_kernel_fn ())
                  \<lparr>rng_key := 800, states := Some (Some [802, 1604]), infos := Some [801, 802]\<rparr>)"
  by (simp add: fit_def BlackJaxHandler_init_def example_library_def example_model_def
      initialize_def backend_in_force_def get_model_fn_def BlackJaxNumpyro_init_def
      starting_state_def run_warmup_def inference_loop_def one_step_def example_kernel_def
      upt_rec numeral_2_eq_2)

subsection \<open>The samples accessor\<close>

text \<open>
  Claim C4 fails on the code before any \<^verbatim>\<open>fit\<close>. The constructor sets the attribute
  \<open>state\<close>, the accessor reads the attribute \<open>states\<close>: on a handler as constructed,
  \<^verbatim>\<open>samples\<close> raises \<open>AttributeError\<close>, and so does \<^verbatim>\<open>predict\<close>, which reads it.
\<close>

theorem samples_before_fit_raises:
  "samples L (BlackJaxHandler_init L kern kwargs) = Inl (AttributeError ''states'')
   \<and> fst (predict L (BlackJaxHandler_init L kern kwargs) model data)
       = Inl (AttributeError ''states'')"
  by (simp add: samples_def predict_def BlackJaxHandler_init_def)

subsection \<open>The number of samples\<close>

lemma run_warmup_Inr:
  assumes "run_warmup L self pos ld nw = (Inr res, self')"
  shows "self' = self\<lparr>rng_key := fst (split L (rng_key self))\<rparr>"
proof (cases "window_adaptation L (kernel_fn self) ld (kernel_kwargs self) (if nw < 1 then 1 else nw)")
  case (Inl e)
  then show ?thesis
    using assms by (simp add: run_warmup_def Let_def)
next
  case (Inr run)
  then show ?thesis
    using assms by (simp add: run_warmup_def Let_def case_prod_beta)
qed

lemma starting_state_Inr:
  assumes "starting_state L self pos ld nw = (Inr res, self')"
  shows "self' = (if 0 < nw then self\<lparr>rng_key := fst (split L (rng_key self))\<rparr> else self)"
proof (cases "0 < nw")
  case True
  then have "run_warmup L self pos ld nw = (Inr res, self')"
    using assms by (simp add: starting_state_def)
  then show ?thesis
    using True by (simp add: run_warmup_Inr)
next
  case False
  show ?thesis
  proof (cases "kernel_fn self ld (kernel_kwargs self)")
    case (Inl e)
    then show ?thesis
      using assms False by (simp add: starting_state_def)
  next
    case (Inr kern)
    then show ?thesis
      using assms False by (cases "init kern pos") (simp_all add: starting_state_def)
  qed
qed

lemma fit_reaches_sampling:
  assumes "initialize L (snd (split L (rng_key self))) model data None = Inr (pos, ld)"
    and "starting_state L (self\<lparr>rng_key := fst (split L (rng_key self))\<rparr>) pos ld num_warmup
           = (Inr (st, kern), self2)"
  shows "fit L self model data num_warmup num_samples
       = (case inference_loop L (snd (split L (rng_key self2))) kern st num_samples of
            Inl e \<Rightarrow> (Some e, self2\<lparr>rng_key := fst (split L (rng_key self2))\<rparr>)
          | Inr (sts, infs) \<Rightarrow>
              (None, self2\<lparr>rng_key := fst (split L (rng_key self2)),
                           states := Some (Some sts), infos := Some infs\<rparr>))"
  by (simp add: fit_def Let_def case_prod_beta assms)

lemma inference_loop_Inl:
  "inference_loop L key kern st n = Inl e \<longleftrightarrow> split_num L key n = Inl e"
  by (cases "split_num L key n") (simp_all add: inference_loop_def Let_def case_prod_beta)

text \<open>
  Claim C3, as the code has it. \<^verbatim>\<open>fit\<close> does not look at \<open>num_samples\<close> before the
  sampling loop. Whenever initialisation and the adapt-window statement succeed, the
  call fails exactly when \<^verbatim>\<open>random.split(key, num_samples)\<close> fails, with that error,
  whatever \<open>num_samples\<close> is (negative ones included); by then the stored key has been
  advanced for initialisation, for warm-up (when \<open>num_warmup > 0\<close>) and for sampling.
\<close>

theorem fit_does_not_check_num_samples:
  assumes "initialize L (snd (split L (rng_key self))) model data None = Inr (pos, ld)"
    and "starting_state L (self\<lparr>rng_key := fst (split L (rng_key self))\<rparr>) pos ld num_warmup
           = (Inr (st, kern), self2)"
  shows "fst (fit L self model data num_warmup num_samples)
           = (case split_num L (snd (split L (rng_key self2))) num_samples of
                Inl e \<Rightarrow> Some e | Inr keys \<Rightarrow> None)
       \<and> rng_key (snd (fit L self model data num_warmup num_samples)) = fst (split L (rng_key self2))
       \<and> rng_key self2
           = (if 0 < num_warmup then fst (split L (fst (split L (rng_key self))))
              else fst (split L (rng_key self)))"
proof -
  note fit = fit_reaches_sampling [OF assms, of num_samples]
  have key2: "rng_key self2
           = (if 0 < num_warmup then fst (split L (fst (split L (rng_key self))))
              else fst (split L (rng_key self)))"
    using starting_state_Inr [OF assms(2)] by simp
  show ?thesis
  proof (cases "split_num L (snd (split L (rng_key self2))) num_samples")
    case (Inl e)
    then have "inference_loop L (snd (split L (rng_key self2))) kern st num_samples = Inl e"
      by (simp add: inference_loop_Inl)
    then show ?thesis
      using fit key2 Inl by simp
  next
    case (Inr keys)
    then obtain res where
      "inference_loop L (snd (split L (rng_key self2))) kern st num_samples = Inr res"
      by (simp add: inference_loop_def Let_def case_prod_beta)
    then show ?thesis
      using fit key2 Inr by (cases res) simp
  qed
qed

theorem fit_does_not_check_num_samples_witness:
  "fst (fit example_library (BlackJaxHandler_init example_library example_kernel_fn ())
          example_model () 1 (- 1)) = Some (LibraryError ''random.split'')
   \<and> rng_key (snd (fit example_library (BlackJaxHandler_init example_library example_kernel_fn ())
          example_model () 1 (- 1))) = 800"
proof -
  let ?h = "BlackJaxHandler_init example_library example_kernel_fn ()"
  have h1: "initialize example_library (snd (split example_library (rng_key ?h))) example_model ()
              None = Inr (Some 0, \<lambda>p. Some (- real_of_int (p * p)))"
    by (simp add: initialize_def backend_in_force_def example_model_def get_model_fn_def
        BlackJaxNumpyro_init_def example_library_def)
  have h2: "starting_state example_library
              (?h\<lparr>rng_key := fst (split example_library (rng_key ?h))\<rparr>)
              (Some 0) (\<lambda>p. Some (- real_of_int (p * p))) 1
            = (Inr (1, example_kernel), ?h\<lparr>rng_key := 400\<rparr>)"
    by (simp add: starting_state_def run_warmup_def example_library_def BlackJaxHandler_init_def)
  from fit_does_not_check_num_samples [OF h1 h2, of "- 1"] show ?thesis
    by (simp add: example_library_def)
qed

text \<open>
  The claim as stated fails. On the small instance, \<^verbatim>\<open>fit\<close> with \<open>num_warmup = 1\<close> and
  \<open>num_samples = -1\<close> ends with the library's error from \<^verbatim>\<open>random.split\<close>, not with
  \<open>ConfigurationError\<close>, after the stored key has gone from 100 to 800: initialisation
  and warm-up have run. With a model whose backend provides no initial position, the
  same call ends earlier, with the error of the adaptation run: warm-up is attempted
  before \<open>num_samples\<close> plays any part.
\<close>

theorem fit_negative_num_samples_no_ConfigurationError:
  "fst (fit example_library (BlackJaxHandler_init example_library example_kernel_fn ())
          example_model () 1 (- 1)) \<noteq> Some ConfigurationError
   \<and> fit example_library (BlackJaxHandler_init example_library example_kernel_fn ())
          example_model () 1 (- 1)
       = (Some (LibraryError ''random.split''),
          (BlackJaxHandler_init example_library example_kernel_fn ())\<lparr>rng_key := 800\<rparr>)
   \<and> fit example_library (BlackJaxHandler_init example_library example_kernel_fn ())
          (example_model\<lparr>backend := Some (Some PROVIDED)\<rparr>) () 1 (- 1)
       = (Some (LibraryError ''window_adaptation.run''),
          (BlackJaxHandler_init example_library example_kernel_fn ())\<lparr>rng_key := 400\<rparr>)"
  by (simp add: fit_def BlackJaxHandler_init_def example_library_def example_model_def
      initialize_def backend_in_force_def get_model_fn_def BlackJaxNumpyro_init_def
      BlackJaxProvided_init_def starting_state_def run_warmup_def inference_loop_def)

end
